theory Spec2Isabelle
  imports Main
begin

section \<open>Request-scoped credentials: \<^verbatim>\<open>cuga/backend/llm/credential_context.py\<close>\<close>

text \<open>
  The module keeps one context variable, \<^verbatim>\<open>_request_credentials\<close>, whose value is either
  Python's \<^verbatim>\<open>None\<close> or a reference to a \<^verbatim>\<open>RequestCredentials\<close> object, and four functions
  that write and read it. The embedding passes the state explicitly: the objects
  constructed so far (a heap, addressed by position) and the binding of the variable in
  the current context.
\<close>

subsection \<open>Data\<close>

text \<open>
  The dataclass \<^verbatim>\<open>RequestCredentials\<close> (lines 33-41): six fields of type
  \<^verbatim>\<open>Optional[str]\<close>, each defaulting to \<^verbatim>\<open>None\<close>.
\<close>

record RequestCredentials =
  api_key :: "string option"
  provider :: "string option"
  model :: "string option"
  base_url :: "string option"
  user_id :: "string option"
  organization_id :: "string option"

type_synonym addr = nat

text \<open>A value of type \<^verbatim>\<open>Optional[RequestCredentials]\<close>: \<^verbatim>\<open>None\<close>, or a reference to an object.\<close>

datatype pyref = PyNone | Ref addr

text \<open>
  The exceptions the operations used by the module can raise: \<^verbatim>\<open>ContextVar.get\<close> raises
  \<^verbatim>\<open>LookupError\<close> when the variable has neither a value nor a default, and reading an
  attribute of \<^verbatim>\<open>None\<close> raises \<^verbatim>\<open>AttributeError\<close>. \<open>Dangling\<close> stands for a reference to
  an object that was never constructed; Python has no such reference, and the invariant
  \<open>heap_ok\<close> below excludes it.
\<close>

datatype error = LookupError | AttributeError | Dangling

text \<open>
  \<^verbatim>\<open>contextvars.ContextVar(name, default=...)\<close>: a name and an optional default. The
  binding of a variable in the current context is \<open>None\<close> while the variable has no value
  there, and \<open>Some v\<close> once a value was set.
\<close>

record 'v ContextVar =
  var_name :: string
  var_default :: "'v option"

definition ContextVar_get :: "'v ContextVar \<Rightarrow> 'v option \<Rightarrow> error + 'v" where
  "ContextVar_get var binding =
     (case binding of
        Some v \<Rightarrow> Inr v
      | None \<Rightarrow> (case var_default var of Some d \<Rightarrow> Inr d | None \<Rightarrow> Inl LookupError))"

definition ContextVar_set :: "'v ContextVar \<Rightarrow> 'v \<Rightarrow> 'v option \<Rightarrow> 'v option" where
  "ContextVar_set var v binding = Some v"

text \<open>Lines 45-47: \<^verbatim>\<open>ContextVar("request_credentials", default=None)\<close>.\<close>

definition request_credentials :: "pyref ContextVar" where
  "request_credentials = \<lparr>var_name = ''request_credentials'', var_default = Some PyNone\<rparr>"

subsection \<open>State of one flow\<close>

record flow_state =
  objects :: "RequestCredentials list"
  ctx :: "pyref option"

text \<open>A flow that has not bound the variable yet, whatever objects exist.\<close>

definition fresh_flow :: "RequestCredentials list \<Rightarrow> flow_state" where
  "fresh_flow h = \<lparr>objects = h, ctx = None\<rparr>"

definition load :: "flow_state \<Rightarrow> addr \<Rightarrow> RequestCredentials option" where
  "load s a = (if a < length (objects s) then Some (objects s ! a) else None)"

text \<open>The bound reference, if any, points to a constructed object.\<close>

definition heap_ok :: "flow_state \<Rightarrow> bool" where
  "heap_ok s = (case ctx s of Some (Ref a) \<Rightarrow> a < length (objects s) | _ \<Rightarrow> True)"

text \<open>The dataclass constructor: a new object at a new address, no validation.\<close>

definition new_RequestCredentials ::
  "string option \<Rightarrow> string option \<Rightarrow> string option \<Rightarrow> string option \<Rightarrow> string option \<Rightarrow>
   string option \<Rightarrow> flow_state \<Rightarrow> addr \<times> flow_state" where
  "new_RequestCredentials k p m b u g s =
     (length (objects s),
      s\<lparr>objects := objects s @
         [\<lparr>api_key = k, provider = p, model = m, base_url = b, user_id = u,
           organization_id = g\<rparr>]\<rparr>)"

text \<open>\<^verbatim>\<open>creds.api_key\<close> for a value \<^verbatim>\<open>creds\<close> of type \<^verbatim>\<open>Optional[RequestCredentials]\<close>.\<close>

definition getattr_api_key :: "flow_state \<Rightarrow> pyref \<Rightarrow> error + string option" where
  "getattr_api_key s r =
     (case r of
        PyNone \<Rightarrow> Inl AttributeError
      | Ref a \<Rightarrow> (case load s a of None \<Rightarrow> Inl Dangling | Some obj \<Rightarrow> Inr (api_key obj)))"

subsection \<open>The four functions\<close>

text \<open>Lines 50-72.\<close>

definition set_request_credentials ::
  "string option \<Rightarrow> string option \<Rightarrow> string option \<Rightarrow> string option \<Rightarrow> string option \<Rightarrow>
   string option \<Rightarrow> flow_state \<Rightarrow> flow_state" where
  "set_request_credentials k p m b u g s =
     (case new_RequestCredentials k p m b u g s of
        (creds, s') \<Rightarrow> s'\<lparr>ctx := ContextVar_set request_credentials (Ref creds) (ctx s')\<rparr>)"

text \<open>Lines 75-82.\<close>

definition get_request_credentials :: "flow_state \<Rightarrow> error + pyref" where
  "get_request_credentials s = ContextVar_get request_credentials (ctx s)"

text \<open>Lines 85-91.\<close>

definition clear_request_credentials :: "flow_state \<Rightarrow> flow_state" where
  "clear_request_credentials s = s\<lparr>ctx := ContextVar_set request_credentials PyNone (ctx s)\<rparr>"

text \<open>
  Lines 94-101: \<^verbatim>\<open>creds is not None and creds.api_key is not None\<close>. The conjunction
  short-circuits, so the attribute is read only from a reference.
\<close>

definition has_request_credentials :: "flow_state \<Rightarrow> error + bool" where
  "has_request_credentials s =
     (case ContextVar_get request_credentials (ctx s) of
        Inl e \<Rightarrow> Inl e
      | Inr creds \<Rightarrow>
          if creds = PyNone then Inr False
          else (case getattr_api_key s creds of
                  Inl e \<Rightarrow> Inl e
                | Inr k \<Rightarrow> Inr (k \<noteq> None)))"

subsection \<open>Sequences of calls\<close>

text \<open>
  A caller of the module makes calls to its four functions, one after the other; an
  exception raised by a call ends the sequence.
\<close>

datatype call =
  CallSet "string option" "string option" "string option" "string option" "string option"
    "string option"
  | CallGet
  | CallClear
  | CallHas

datatype retval = RetNone | RetCreds pyref | RetBool bool

fun exec :: "call \<Rightarrow> flow_state \<Rightarrow> error + (retval \<times> flow_state)" where
  "exec (CallSet k p m b u g) s = Inr (RetNone, set_request_credentials k p m b u g s)"
| "exec CallGet s =
     (case get_request_credentials s of Inl e \<Rightarrow> Inl e | Inr r \<Rightarrow> Inr (RetCreds r, s))"
| "exec CallClear s = Inr (RetNone, clear_request_credentials s)"
| "exec CallHas s =
     (case has_request_credentials s of Inl e \<Rightarrow> Inl e | Inr b \<Rightarrow> Inr (RetBool b, s))"

fun run :: "call list \<Rightarrow> flow_state \<Rightarrow> error + flow_state" where
  "run [] s = Inr s"
| "run (c # cs) s = (case exec c s of Inl e \<Rightarrow> Inl e | Inr (r, s') \<Rightarrow> run cs s')"

fun is_set :: "call \<Rightarrow> bool" where
  "is_set (CallSet k p m b u g) = True"
| "is_set c = False"

subsection \<open>The caller's check, as the module documents it\<close>

text \<open>
  The usage note in the module's docstring (lines 18-25) shows the decision a caller
  makes: \<^verbatim>\<open>creds = get_request_credentials()\<close>, then \<^verbatim>\<open>if creds and creds.api_key:\<close> use the
  request's credentials, \<^verbatim>\<open>else:\<close> fall back to the environment. Both tests are Python
  truth tests: an object of the dataclass is true, \<^verbatim>\<open>None\<close> and the empty string are false.
\<close>

definition truthy_str :: "string option \<Rightarrow> bool" where
  "truthy_str v = (case v of None \<Rightarrow> False | Some t \<Rightarrow> t \<noteq> [])"

definition usage_check :: "flow_state \<Rightarrow> error + bool" where
  "usage_check s =
     (case get_request_credentials s of
        Inl e \<Rightarrow> Inl e
      | Inr creds \<Rightarrow>
          (case creds of
             PyNone \<Rightarrow> Inr False
           | Ref a \<Rightarrow>
               (case getattr_api_key s creds of
                  Inl e \<Rightarrow> Inl e
                | Inr k \<Rightarrow> Inr (truthy_str k))))"

section \<open>Properties\<close>

subsection \<open>Basic facts\<close>

lemma get_fresh: "get_request_credentials (fresh_flow h) = Inr PyNone"
  by (simp add: get_request_credentials_def fresh_flow_def ContextVar_get_def
      request_credentials_def)

lemma has_fresh: "has_request_credentials (fresh_flow h) = Inr False"
  by (simp add: has_request_credentials_def fresh_flow_def ContextVar_get_def
      request_credentials_def)

lemma get_bound: "ctx s = Some r \<Longrightarrow> get_request_credentials s = Inr r"
  by (simp add: get_request_credentials_def ContextVar_get_def)

lemma get_total: "\<exists>r. get_request_credentials s = Inr r"
  by (cases "ctx s")
    (simp_all add: get_request_credentials_def ContextVar_get_def request_credentials_def)

lemma objects_set:
  "objects (set_request_credentials k p m b u g s) =
     objects s @ [\<lparr>api_key = k, provider = p, model = m, base_url = b, user_id = u,
       organization_id = g\<rparr>]"
  by (simp add: set_request_credentials_def new_RequestCredentials_def)

lemma ctx_set: "ctx (set_request_credentials k p m b u g s) = Some (Ref (length (objects s)))"
  by (simp add: set_request_credentials_def new_RequestCredentials_def ContextVar_set_def)

lemma get_set:
  "get_request_credentials (set_request_credentials k p m b u g s) =
     Inr (Ref (length (objects s)))"
  by (simp add: get_bound ctx_set)

lemma load_set_new:
  "load (set_request_credentials k p m b u g s) (length (objects s)) =
     Some \<lparr>api_key = k, provider = p, model = m, base_url = b, user_id = u,
       organization_id = g\<rparr>"
  by (simp add: load_def objects_set)

lemma load_set_old:
  "load s a = Some obj \<Longrightarrow> load (set_request_credentials k p m b u g s) a = Some obj"
  by (auto simp: load_def objects_set nth_append split: if_splits)

lemma load_fresh_address: "load s (length (objects s)) = None"
  by (simp add: load_def)

lemma has_set:
  "has_request_credentials (set_request_credentials k p m b u g s) = Inr (k \<noteq> None)"
  by (simp add: has_request_credentials_def ctx_set ContextVar_get_def getattr_api_key_def
      load_set_new)

lemma objects_clear: "objects (clear_request_credentials s) = objects s"
  by (simp add: clear_request_credentials_def)

lemma ctx_clear: "ctx (clear_request_credentials s) = Some PyNone"
  by (simp add: clear_request_credentials_def ContextVar_set_def)

lemma get_clear: "get_request_credentials (clear_request_credentials s) = Inr PyNone"
  by (simp add: get_bound ctx_clear)

lemma has_unbound: "ctx s = Some PyNone \<Longrightarrow> has_request_credentials s = Inr False"
  by (simp add: has_request_credentials_def ContextVar_get_def)

lemma has_clear: "has_request_credentials (clear_request_credentials s) = Inr False"
  by (simp add: has_unbound ctx_clear)

subsection \<open>The invariant, and that no call raises\<close>

lemma heap_ok_fresh: "heap_ok (fresh_flow h)"
  by (simp add: heap_ok_def fresh_flow_def)

lemma heap_ok_set: "heap_ok (set_request_credentials k p m b u g s)"
  by (simp add: heap_ok_def ctx_set objects_set)

lemma heap_ok_clear: "heap_ok (clear_request_credentials s)"
  by (simp add: heap_ok_def ctx_clear)

lemma has_total: "heap_ok s \<Longrightarrow> \<exists>b. has_request_credentials s = Inr b"
  by (auto simp: heap_ok_def has_request_credentials_def ContextVar_get_def
      request_credentials_def getattr_api_key_def load_def
      split: option.splits pyref.splits)

lemma exec_total: "heap_ok s \<Longrightarrow> \<exists>r s'. exec c s = Inr (r, s') \<and> heap_ok s'"
proof (cases c)
  case (CallSet k p m b u g)
  then show ?thesis by (simp add: heap_ok_set)
next
  case CallGet
  assume "heap_ok s"
  moreover obtain r where "get_request_credentials s = Inr r"
    using get_total by blast
  ultimately show ?thesis using CallGet by simp
next
  case CallClear
  then show ?thesis by (simp add: heap_ok_clear)
next
  case CallHas
  assume ok: "heap_ok s"
  then obtain b where "has_request_credentials s = Inr b"
    using has_total by blast
  with ok show ?thesis using CallHas by simp
qed

lemma run_total: "heap_ok s \<Longrightarrow> \<exists>s'. run cs s = Inr s' \<and> heap_ok s'"
proof (induction cs arbitrary: s)
  case Nil
  then show ?case by simp
next
  case (Cons c cs)
  from Cons.prems obtain r t where step: "exec c s = Inr (r, t)" and ok: "heap_ok t"
    using exec_total by blast
  from Cons.IH [OF ok] obtain s' where "run cs t = Inr s'" and "heap_ok s'"
    by blast
  with step show ?case by simp
qed

subsection \<open>Calls only add objects\<close>

lemma exec_objects: "exec c s = Inr (r, s') \<Longrightarrow> \<exists>ys. objects s' = objects s @ ys"
  by (cases c) (auto simp: objects_set objects_clear split: sum.splits)

lemma run_objects: "run cs s = Inr s' \<Longrightarrow> \<exists>ys. objects s' = objects s @ ys"
proof (induction cs arbitrary: s)
  case Nil
  then show ?case by simp
next
  case (Cons c cs)
  from Cons.prems obtain r t where step: "exec c s = Inr (r, t)" and rest: "run cs t = Inr s'"
    by (auto split: sum.splits)
  from exec_objects [OF step] obtain ys where "objects t = objects s @ ys" ..
  moreover from Cons.IH [OF rest] obtain zs where "objects s' = objects t @ zs" ..
  ultimately show ?case by simp
qed

lemma load_extend: "objects s' = objects s @ ys \<Longrightarrow> load s a = Some obj \<Longrightarrow> load s' a = Some obj"
  by (auto simp: load_def nth_append split: if_splits)

subsection \<open>Calls other than set keep an unbound flow unbound\<close>

lemma exec_keeps_unbound:
  "ctx s = Some PyNone \<Longrightarrow> \<not> is_set c \<Longrightarrow> \<exists>r s'. exec c s = Inr (r, s') \<and> ctx s' = Some PyNone"
  by (cases c) (simp_all add: get_bound has_unbound ctx_clear)

lemma run_keeps_unbound:
  "ctx s = Some PyNone \<Longrightarrow> list_all (\<lambda>c. \<not> is_set c) cs \<Longrightarrow>
   \<exists>s'. run cs s = Inr s' \<and> ctx s' = Some PyNone"
proof (induction cs arbitrary: s)
  case Nil
  then show ?case by simp
next
  case (Cons c cs)
  from Cons.prems have "\<not> is_set c" and tl: "list_all (\<lambda>c. \<not> is_set c) cs"
    by simp_all
  with Cons.prems(1) obtain r t where step: "exec c s = Inr (r, t)" and un: "ctx t = Some PyNone"
    using exec_keeps_unbound by blast
  from Cons.IH [OF un tl] obtain s' where "run cs t = Inr s'" and "ctx s' = Some PyNone"
    by blast
  with step show ?case by simp
qed


subsection \<open>Default absence\<close>

text \<open>
  C3: in a fresh flow, one in which the variable was never set, \<^verbatim>\<open>get_request_credentials()\<close>
  returns \<^verbatim>\<open>None\<close> and \<^verbatim>\<open>has_request_credentials()\<close> returns \<^verbatim>\<open>False\<close>, whatever objects
  exist.
\<close>

theorem fresh_flow_absent:
  "get_request_credentials (fresh_flow h) = Inr PyNone \<and>
   has_request_credentials (fresh_flow h) = Inr False"
  by (simp add: get_fresh has_fresh)

subsection \<open>Presence test\<close>

text \<open>
  What \<^verbatim>\<open>has_request_credentials()\<close> computes: it answers \<^verbatim>\<open>True\<close> exactly when the variable
  holds a reference to an object whose \<^verbatim>\<open>api_key\<close> is not \<^verbatim>\<open>None\<close>.
\<close>

lemma has_request_credentials_iff:
  "heap_ok s \<Longrightarrow>
   has_request_credentials s = Inr True \<longleftrightarrow>
     (\<exists>a obj. get_request_credentials s = Inr (Ref a) \<and> load s a = Some obj \<and>
        api_key obj \<noteq> None)"
  by (auto simp: heap_ok_def has_request_credentials_def get_request_credentials_def
      ContextVar_get_def request_credentials_def getattr_api_key_def load_def
      split: option.splits pyref.splits)

text \<open>
  C1: \<^verbatim>\<open>has_request_credentials()\<close> is to answer \<^verbatim>\<open>True\<close> only for a bundle whose \<^verbatim>\<open>api_key\<close>
  is neither \<^verbatim>\<open>None\<close> nor the empty string. After
  \<^verbatim>\<open>set_request_credentials(api_key="")\<close> in a fresh flow the bundle read back has the empty
  string as its \<^verbatim>\<open>api_key\<close>, the check of the module's usage note answers \<^verbatim>\<open>False\<close>, and
  \<^verbatim>\<open>has_request_credentials()\<close> answers \<^verbatim>\<open>True\<close>.
\<close>

theorem has_request_credentials_empty_api_key:
  "get_request_credentials
     (set_request_credentials (Some []) None None None None None (fresh_flow [])) =
     Inr (Ref 0) \<and>
   load (set_request_credentials (Some []) None None None None None (fresh_flow [])) 0 =
     Some \<lparr>api_key = Some [], provider = None, model = None, base_url = None,
       user_id = None, organization_id = None\<rparr> \<and>
   usage_check
     (set_request_credentials (Some []) None None None None None (fresh_flow [])) =
     Inr False \<and>
   has_request_credentials
     (set_request_credentials (Some []) None None None None None (fresh_flow [])) =
     Inr True"
proof -
  let ?s = "set_request_credentials (Some []) None None None None None (fresh_flow [])"
  have len: "length (objects (fresh_flow [])) = 0"
    by (simp add: fresh_flow_def)
  have g: "get_request_credentials ?s = Inr (Ref 0)"
    using get_set [of "Some []" None None None None None "fresh_flow []"] len by simp
  have l: "load ?s 0 = Some \<lparr>api_key = Some [], provider = None, model = None,
      base_url = None, user_id = None, organization_id = None\<rparr>"
    using load_set_new [of "Some []" None None None None None "fresh_flow []"] len by simp
  have u: "usage_check ?s = Inr False"
    by (simp add: usage_check_def g getattr_api_key_def l truthy_str_def)
  have h: "has_request_credentials ?s = Inr True"
    by (simp add: has_set)
  from g l u h show ?thesis by simp
qed

subsection \<open>Overwrite\<close>

text \<open>
  C4: after two calls of \<^verbatim>\<open>set_request_credentials\<close> in one flow,
  \<^verbatim>\<open>get_request_credentials()\<close> returns the object built by the second call, and each of
  its six fields is the argument of the second call: nothing of the first call's bundle
  remains in it, whatever the first call's arguments were. The claim's instance is
  \<open>k1 = Some x\<close>, \<open>k2 = Some y\<close> and every other argument \<open>None\<close>.
\<close>

theorem set_twice_second_wins:
  "get_request_credentials
     (set_request_credentials k2 p2 m2 b2 u2 g2
        (set_request_credentials k1 p1 m1 b1 u1 g1 s)) =
     Inr (Ref (Suc (length (objects s)))) \<and>
   load
     (set_request_credentials k2 p2 m2 b2 u2 g2
        (set_request_credentials k1 p1 m1 b1 u1 g1 s))
     (Suc (length (objects s))) =
     Some \<lparr>api_key = k2, provider = p2, model = m2, base_url = b2, user_id = u2,
       organization_id = g2\<rparr>"
proof -
  let ?s1 = "set_request_credentials k1 p1 m1 b1 u1 g1 s"
  have len: "length (objects ?s1) = Suc (length (objects s))"
    by (simp add: objects_set)
  show ?thesis
    using get_set [of k2 p2 m2 b2 u2 g2 ?s1] load_set_new [of k2 p2 m2 b2 u2 g2 ?s1]
    by (simp only: len simp_thms)
qed

subsection \<open>Clear\<close>

text \<open>
  C5: after \<^verbatim>\<open>clear_request_credentials()\<close>, in any state, and any further calls none of
  which is a \<^verbatim>\<open>set_request_credentials\<close>, the calls all return, \<^verbatim>\<open>get_request_credentials()\<close>
  returns \<^verbatim>\<open>None\<close> and \<^verbatim>\<open>has_request_credentials()\<close> returns \<^verbatim>\<open>False\<close>: the same answers as
  in a flow that never set the variable.
\<close>

theorem clear_resets:
  assumes "list_all (\<lambda>c. \<not> is_set c) cs"
  shows "\<exists>s'. run cs (clear_request_credentials s) = Inr s' \<and>
           get_request_credentials s' = Inr PyNone \<and>
           has_request_credentials s' = Inr False \<and>
           get_request_credentials s' = get_request_credentials (fresh_flow (objects s)) \<and>
           has_request_credentials s' = has_request_credentials (fresh_flow (objects s))"
proof -
  have "ctx (clear_request_credentials s) = Some PyNone"
    by (rule ctx_clear)
  from run_keeps_unbound [OF this assms]
  obtain s' where r: "run cs (clear_request_credentials s) = Inr s'"
    and un: "ctx s' = Some PyNone"
    by blast
  have "get_request_credentials s' = Inr PyNone"
    using un by (rule get_bound)
  moreover have "has_request_credentials s' = Inr False"
    using un by (rule has_unbound)
  ultimately show ?thesis
    using r by (simp add: get_fresh has_fresh)
qed

theorem clear_resets_witness:
  "list_all (\<lambda>c. \<not> is_set c) [CallGet, CallHas, CallClear, CallHas] \<and>
   (\<exists>s'. run [CallGet, CallHas, CallClear, CallHas]
            (clear_request_credentials
               (set_request_credentials (Some ''x'') None None None None None
                  (fresh_flow []))) = Inr s' \<and>
          get_request_credentials s' = Inr PyNone \<and>
          has_request_credentials s' = Inr False)"
proof -
  have h: "list_all (\<lambda>c. \<not> is_set c) [CallGet, CallHas, CallClear, CallHas]"
    by simp
  from clear_resets [OF h,
      of "set_request_credentials (Some ''x'') None None None None None (fresh_flow [])"]
  show ?thesis using h by blast
qed

subsection \<open>Round trip\<close>

text \<open>
  C6: for every choice of the six arguments and every state,
  \<^verbatim>\<open>get_request_credentials()\<close> after \<^verbatim>\<open>set_request_credentials(...)\<close> returns a reference to
  an object whose six fields are the six arguments; an argument that was not supplied is
  \<^verbatim>\<open>None\<close>, and so is its field.
\<close>

theorem set_get_roundtrip:
  "get_request_credentials (set_request_credentials k p m b u g s) =
     Inr (Ref (length (objects s))) \<and>
   load (set_request_credentials k p m b u g s) (length (objects s)) =
     Some \<lparr>api_key = k, provider = p, model = m, base_url = b, user_id = u,
       organization_id = g\<rparr>"
  by (simp add: get_set load_set_new)

subsection \<open>No call raises\<close>

text \<open>
  C7: every call of the four functions returns, with any arguments (\<^verbatim>\<open>None\<close> and the empty
  string among them), in any state in which the variable does not hold a reference to an
  object that was never built; and the state after the call is again such a state.
  \<^verbatim>\<open>get_request_credentials\<close> cannot raise \<^verbatim>\<open>LookupError\<close> because the variable has a
  default, and \<^verbatim>\<open>has_request_credentials\<close> cannot raise \<^verbatim>\<open>AttributeError\<close> because it reads
  \<^verbatim>\<open>api_key\<close> only when the value is not \<^verbatim>\<open>None\<close>.
\<close>

theorem calls_never_raise:
  assumes "heap_ok s"
  shows "\<exists>r s'. exec c s = Inr (r, s') \<and> heap_ok s'"
  using assms by (rule exec_total)

theorem calls_never_raise_witness:
  "heap_ok (fresh_flow []) \<and>
   (\<exists>r s'. exec (CallSet (Some []) None (Some ''gpt-4o'') None (Some []) None) (fresh_flow []) =
      Inr (r, s') \<and> heap_ok s')"
proof -
  have h: "heap_ok (fresh_flow [])"
    by (simp add: heap_ok_def fresh_flow_def)
  from calls_never_raise [OF h] show ?thesis using h by blast
qed

subsection \<open>Bundles are not modified\<close>

text \<open>
  C8: any sequence of calls of the four functions returns, and every object that existed
  before it, a bundle returned by an earlier \<^verbatim>\<open>get_request_credentials()\<close> among them, has
  the same six fields after it. \<^verbatim>\<open>set_request_credentials\<close> binds the variable to an
  address at which no object existed before the call, so it builds a new bundle and
  leaves the old ones as they were.
\<close>

theorem bundles_never_mutated:
  assumes "heap_ok s"
  shows "(\<exists>s'. run cs s = Inr s' \<and> (\<forall>a obj. load s a = Some obj \<longrightarrow> load s' a = Some obj)) \<and>
         get_request_credentials (set_request_credentials k p m b u g s) =
           Inr (Ref (length (objects s))) \<and>
         load s (length (objects s)) = None \<and>
         (\<forall>a obj. load s a = Some obj \<longrightarrow>
            load (set_request_credentials k p m b u g s) a = Some obj)"
proof -
  from run_total [OF assms] obtain s' where r: "run cs s = Inr s'"
    by blast
  from run_objects [OF r] obtain ys where "objects s' = objects s @ ys" ..
  then have "\<forall>a obj. load s a = Some obj \<longrightarrow> load s' a = Some obj"
    using load_extend by blast
  with r have first: "\<exists>s'. run cs s = Inr s' \<and> (\<forall>a obj. load s a = Some obj \<longrightarrow> load s' a = Some obj)"
    by blast
  have "\<forall>a obj. load s a = Some obj \<longrightarrow>
      load (set_request_credentials k p m b u g s) a = Some obj"
    using load_set_old by blast
  with first show ?thesis
    by (simp add: get_set load_fresh_address)
qed

theorem bundles_never_mutated_witness:
  "heap_ok (set_request_credentials (Some ''x'') (Some ''openai'') None None None None
      (fresh_flow [])) \<and>
   (\<exists>s'. run [CallGet, CallSet (Some ''y'') None None None None None, CallHas, CallClear]
            (set_request_credentials (Some ''x'') (Some ''openai'') None None None None
               (fresh_flow [])) = Inr s' \<and>
          load s' 0 =
            Some \<lparr>api_key = Some ''x'', provider = Some ''openai'', model = None,
              base_url = None, user_id = None, organization_id = None\<rparr>)"
proof -
  let ?s = "set_request_credentials (Some ''x'') (Some ''openai'') None None None None
      (fresh_flow [])"
  let ?cs = "[CallGet, CallSet (Some ''y'') None None None None None, CallHas, CallClear]"
  have h: "heap_ok ?s"
    by (rule heap_ok_set)
  have l: "load ?s 0 =
      Some \<lparr>api_key = Some ''x'', provider = Some ''openai'', model = None,
        base_url = None, user_id = None, organization_id = None\<rparr>"
    by (simp add: load_def objects_set fresh_flow_def)
  from bundles_never_mutated [OF h, of ?cs]
  obtain s' where "run ?cs ?s = Inr s'"
    and "\<forall>a obj. load ?s a = Some obj \<longrightarrow> load s' a = Some obj"
    by blast
  with l have "run ?cs ?s = Inr s' \<and> load s' 0 =
      Some \<lparr>api_key = Some ''x'', provider = Some ''openai'', model = None,
        base_url = None, user_id = None, organization_id = None\<rparr>"
    by blast
  with h show ?thesis by blast
qed

subsection \<open>A bundle with no field\<close>

text \<open>
  C9: \<^verbatim>\<open>set_request_credentials()\<close> with no argument binds the variable to a new object all
  of whose fields are \<^verbatim>\<open>None\<close>. \<^verbatim>\<open>get_request_credentials()\<close> then returns that object and
  not \<^verbatim>\<open>None\<close>, which is what it returns in a fresh flow and after a clear, while
  \<^verbatim>\<open>has_request_credentials()\<close> returns \<^verbatim>\<open>False\<close>.
\<close>

theorem set_nothing_binds_empty_bundle:
  "get_request_credentials (set_request_credentials None None None None None None s) =
     Inr (Ref (length (objects s))) \<and>
   load (set_request_credentials None None None None None None s) (length (objects s)) =
     Some \<lparr>api_key = None, provider = None, model = None, base_url = None, user_id = None,
       organization_id = None\<rparr> \<and>
   has_request_credentials (set_request_credentials None None None None None None s) =
     Inr False \<and>
   get_request_credentials (set_request_credentials None None None None None None s) \<noteq>
     get_request_credentials (fresh_flow h) \<and>
   get_request_credentials (set_request_credentials None None None None None None s) \<noteq>
     get_request_credentials (clear_request_credentials t)"
  by (simp add: get_set load_set_new has_set get_fresh get_clear)

subsection \<open>Clearing twice\<close>

text \<open>
  C10: \<^verbatim>\<open>clear_request_credentials()\<close> returns in every state and leaves the flow unbound,
  also when the flow is fresh or was cleared before; a second clear changes nothing, so
  two clears in a row leave the state one clear leaves.
\<close>

theorem clear_idempotent:
  "exec CallClear s = Inr (RetNone, clear_request_credentials s) \<and>
   get_request_credentials (clear_request_credentials s) = Inr PyNone \<and>
   has_request_credentials (clear_request_credentials s) = Inr False \<and>
   get_request_credentials (clear_request_credentials (fresh_flow h)) = Inr PyNone \<and>
   has_request_credentials (clear_request_credentials (fresh_flow h)) = Inr False \<and>
   clear_request_credentials (clear_request_credentials s) = clear_request_credentials s \<and>
   run [CallClear, CallClear] s = run [CallClear] s"
proof -
  have twice: "clear_request_credentials (clear_request_credentials s) =
      clear_request_credentials s"
    by (simp add: clear_request_credentials_def ContextVar_set_def)
  then have "run [CallClear, CallClear] s = run [CallClear] s"
    by simp
  with twice show ?thesis
    by (simp add: get_clear has_clear)
qed

end
